theory Spec2Isabelle
  imports Complex_Main "HOL-Library.Sublist"
begin

section \<open>JSON values as Python sees them\<close>

text \<open>
  \<open>json.load\<close> yields \<open>None\<close>, \<open>bool\<close>, \<open>int\<close>, \<open>float\<close>, \<open>str\<close>, \<open>list\<close> and
  \<open>dict\<close> values.  A dict keeps its insertion order, which is the order in which
  \<open>items()\<close> iterates, so it is an association list (keys distinct in a parsed
  document).  A float is represented by its exact value; \<open>NaN\<close> and the infinities
  are outside the model.
\<close>

datatype pyval =
    PNone
  | PBool bool
  | PInt int
  | PFloat rat
  | PStr string
  | PList "pyval list"
  | PDict "(string \<times> pyval) list"

text \<open>\<open>type(v).__name__\<close>\<close>

fun type_name :: "pyval \<Rightarrow> string" where
  "type_name PNone = ''NoneType''"
| "type_name (PBool _) = ''bool''"
| "type_name (PInt _) = ''int''"
| "type_name (PFloat _) = ''float''"
| "type_name (PStr _) = ''str''"
| "type_name (PList _) = ''list''"
| "type_name (PDict _) = ''dict''"

text \<open>\<open>isinstance\<close> against the classes the matcher names.  \<open>bool\<close> is a subclass of
  \<open>int\<close> in Python, so \<open>isinstance(True, (int, float))\<close> holds.\<close>

fun isinstance_str :: "pyval \<Rightarrow> bool" where
  "isinstance_str (PStr _) = True"
| "isinstance_str _ = False"

fun isinstance_int_float :: "pyval \<Rightarrow> bool" where
  "isinstance_int_float (PBool _) = True"
| "isinstance_int_float (PInt _) = True"
| "isinstance_int_float (PFloat _) = True"
| "isinstance_int_float _ = False"

fun isinstance_bool :: "pyval \<Rightarrow> bool" where
  "isinstance_bool (PBool _) = True"
| "isinstance_bool _ = False"

fun isinstance_dict :: "pyval \<Rightarrow> bool" where
  "isinstance_dict (PDict _) = True"
| "isinstance_dict _ = False"

fun isinstance_list :: "pyval \<Rightarrow> bool" where
  "isinstance_list (PList _) = True"
| "isinstance_list _ = False"

definition isinstance_list_dict :: "pyval \<Rightarrow> bool" where
  "isinstance_list_dict v = (isinstance_list v \<or> isinstance_dict v)"

definition isinstance_dict_list_str :: "pyval \<Rightarrow> bool" where
  "isinstance_dict_list_str v = (isinstance_dict v \<or> isinstance_list v \<or> isinstance_str v)"

text \<open>The numeric value behind \<open>==\<close> on \<open>bool\<close>, \<open>int\<close> and \<open>float\<close>: \<open>True\<close> is 1,
  \<open>False\<close> is 0, and an int is compared with a float by exact value.\<close>

fun num_val :: "pyval \<Rightarrow> rat" where
  "num_val (PBool b) = (if b then 1 else 0)"
| "num_val (PInt i) = of_int i"
| "num_val (PFloat r) = r"
| "num_val _ = 0"

text \<open>Python's \<open>==\<close> on these values.\<close>

fun py_eq :: "pyval \<Rightarrow> pyval \<Rightarrow> bool" where
  "py_eq PNone PNone = True"
| "py_eq (PStr a) (PStr b) = (a = b)"
| "py_eq (PList xs) (PList ys) = list_all2 py_eq xs ys"
| "py_eq (PDict a) (PDict b) =
     (length a = length b \<and>
      list_all (\<lambda>(k, v). case map_of b k of None \<Rightarrow> False | Some w \<Rightarrow> py_eq v w) a)"
| "py_eq a b = (isinstance_int_float a \<and> isinstance_int_float b \<and> num_val a = num_val b)"

definition py_ne :: "pyval \<Rightarrow> pyval \<Rightarrow> bool" where
  "py_ne a b = (\<not> py_eq a b)"

text \<open>\<open>d.get(key)\<close>: the value, or \<open>None\<close> for a missing key.\<close>

definition dict_get :: "(string \<times> pyval) list \<Rightarrow> string \<Rightarrow> pyval" where
  "dict_get d key = (case map_of d key of None \<Rightarrow> PNone | Some v \<Rightarrow> v)"

text \<open>\<open>s.startswith(p)\<close> on a \<open>str\<close>, and the attribute lookup \<open>v.startswith\<close> on any
  value: only \<open>str\<close> has the method, every other class raises \<open>AttributeError\<close>.\<close>

datatype pyexn = AttributeError | ReError

definition startswith :: "string \<Rightarrow> string \<Rightarrow> bool" where
  "startswith s p = prefix p s"

fun py_startswith :: "pyval \<Rightarrow> string \<Rightarrow> pyexn + bool" where
  "py_startswith (PStr s) p = Inr (startswith s p)"
| "py_startswith _ p = Inl AttributeError"

text \<open>Decimal rendering of an index, as an f-string prints an \<open>int\<close>.\<close>

definition digit :: "nat \<Rightarrow> char" where
  "digit d = ''0123456789'' ! d"

function str_of_nat :: "nat \<Rightarrow> string" where
  "str_of_nat n = (if n < 10 then [digit n] else str_of_nat (n div 10) @ [digit (n mod 10)])"
  by pat_completeness auto
termination
  by (relation "measure id") auto

declare str_of_nat.simps [simp del]

section \<open>The schema matcher (utils/schema\_validation.py)\<close>

definition OPTIONAL_FIELD_PREFIX :: string where "OPTIONAL_FIELD_PREFIX = ''##''"
definition OPTIONAL_LIST_FIELD_PREFIX :: string where "OPTIONAL_LIST_FIELD_PREFIX = ''##[]''"
definition PRESENT_FIELD :: string where "PRESENT_FIELD = ''#present''"
definition IGNORE_FIELD :: string where "IGNORE_FIELD = ''#ignore''"
definition NULL_FIELD :: string where "NULL_FIELD = ''#null''"
definition EMPTY_LIST_FIELD :: string where "EMPTY_LIST_FIELD = ''#[]''"
definition STRING_FIELD :: string where "STRING_FIELD = ''#string''"
definition NUMBER_FIELD :: string where "NUMBER_FIELD = ''#number''"
definition BOOLEAN_FIELD :: string where "BOOLEAN_FIELD = ''#boolean''"
definition OBJECT_FIELD :: string where "OBJECT_FIELD = ''#object''"
definition ARRAY_FIELD :: string where "ARRAY_FIELD = ''#array''"
definition NOTNULL_FIELD :: string where "NOTNULL_FIELD = ''#notnull''"
definition REGEX_FIELD :: string where "REGEX_FIELD = ''#regex ''"

lemmas token_defs =
  OPTIONAL_FIELD_PREFIX_def OPTIONAL_LIST_FIELD_PREFIX_def PRESENT_FIELD_def IGNORE_FIELD_def
  NULL_FIELD_def EMPTY_LIST_FIELD_def STRING_FIELD_def NUMBER_FIELD_def BOOLEAN_FIELD_def
  OBJECT_FIELD_def ARRAY_FIELD_def NOTNULL_FIELD_def REGEX_FIELD_def

text \<open>
  One diagnostic per \<open>errors.append\<close> site.  Each constructor stands for the f-string
  of that site and carries the values the f-string interpolates, in the order they
  appear; \<open>diag_text\<close> below gives the text.
\<close>

datatype diag =
    MissingPresent string
  | MissingValue string
  | ExpectedEmptyArray string string
  | ExpectedKind string string string
  | ExpectedNotNull string
  | ExpectedNull string string pyval
  | RegexNotString string string string
  | RegexMismatch string string string
  | ValueMismatch string pyval pyval
  | LengthMismatch string nat nat

fun diag_path :: "diag \<Rightarrow> string" where
  "diag_path (MissingPresent p) = p"
| "diag_path (MissingValue p) = p"
| "diag_path (ExpectedEmptyArray p t) = p"
| "diag_path (ExpectedKind p k t) = p"
| "diag_path (ExpectedNotNull p) = p"
| "diag_path (ExpectedNull p t v) = p"
| "diag_path (RegexNotString p pat t) = p"
| "diag_path (RegexMismatch p v pat) = p"
| "diag_path (ValueMismatch p s v) = p"
| "diag_path (LengthMismatch p n m) = p"

text \<open>The text of each diagnostic.  \<open>py_str\<close> is Python's built-in \<open>str()\<close>, which an
  f-string applies to an interpolated value.\<close>

fun diag_text :: "(pyval \<Rightarrow> string) \<Rightarrow> diag \<Rightarrow> string" where
  "diag_text py_str (MissingPresent p) =
     ''Validation Error: Field '' @ [CHR 0x27] @ p @ [CHR 0x27] @ '' is missing but expected to be present.''"
| "diag_text py_str (MissingValue p) =
     ''Validation Error: Expected a value, but field '' @ [CHR 0x27] @ p @ [CHR 0x27] @ '' is missing.''"
| "diag_text py_str (ExpectedEmptyArray p t) =
     ''Validation Error at '' @ [CHR 0x27] @ p @ [CHR 0x27] @ '' expected an array, got '' @ t @ ''.''"
| "diag_text py_str (ExpectedKind p k t) =
     ''Validation Error at '' @ [CHR 0x27] @ p @ [CHR 0x27] @ '': expected '' @ k @ '', got '' @ t @ ''.''"
| "diag_text py_str (ExpectedNotNull p) =
     ''Validation Error at '' @ [CHR 0x27] @ p @ [CHR 0x27] @ '': expected not null value.''"
| "diag_text py_str (ExpectedNull p t v) =
     ''Validation Error at '' @ [CHR 0x27] @ p @ [CHR 0x27] @ '': expected null value. got '' @ t
       @ '' with value '' @ [CHR 0x27] @ py_str v @ [CHR 0x27] @ ''.''"
| "diag_text py_str (RegexNotString p pat t) =
     ''Validation Error at '' @ [CHR 0x27] @ p @ [CHR 0x27] @ '': expected string to match regex ''
       @ [CHR 0x27] @ pat @ [CHR 0x27] @ '', got '' @ t @ ''.''"
| "diag_text py_str (RegexMismatch p v pat) =
     ''Validation Error at '' @ [CHR 0x27] @ p @ [CHR 0x27] @ '': value '' @ [CHR 0x27] @ v @ [CHR 0x27]
       @ '' does not match regex '' @ [CHR 0x27] @ pat @ [CHR 0x27] @ ''.''"
| "diag_text py_str (ValueMismatch p s v) =
     ''Validation Error at '' @ [CHR 0x27] @ p @ [CHR 0x27] @ '': expected value '' @ [CHR 0x27] @ py_str s
       @ [CHR 0x27] @ '', got '' @ [CHR 0x27] @ py_str v @ [CHR 0x27] @ ''.''"
| "diag_text py_str (LengthMismatch p n m) =
     ''Validation Error at '' @ [CHR 0x27] @ p @ [CHR 0x27] @ '': expected array of length ''
       @ str_of_nat n @ '', got '' @ str_of_nat m @ ''.''"

text \<open>
  \<open>re.match(pattern, string)\<close> belongs to Python's library.  The matcher takes it
  as a parameter: \<open>Inr True\<close> when a match object is returned, \<open>Inr False\<close> for
  \<open>None\<close>, \<open>Inl ReError\<close> when the pattern does not compile.
\<close>

type_synonym re_engine = "string \<Rightarrow> string \<Rightarrow> pyexn + bool"

text \<open>
  \<open>_validate_field\<close>.  The closure variable \<open>errors\<close> is threaded through: every
  function takes the list and returns it extended.  The three \<open>for\<close> loops are the
  functions \<open>validate_items\<close> (over \<open>schema_value.items()\<close>), \<open>validate_each\<close>
  (over \<open>enumerate(response_value)\<close> with one item schema) and \<open>validate_zip\<close>
  (over \<open>enumerate(zip(response_value, schema_value))\<close>).

  In the branch for \<open>EMPTY_LIST_FIELD\<close> the source returns unconditionally after
  the emptiness check; the statements written after that \<open>return\<close> (the lookup of
  the named schema and the loop over the items) are never executed and have no
  counterpart here.
\<close>

function validate_field :: "re_engine \<Rightarrow> pyval \<Rightarrow> pyval \<Rightarrow> string \<Rightarrow> diag list \<Rightarrow> pyexn + diag list"
  and validate_items :: "re_engine \<Rightarrow> (string \<times> pyval) list \<Rightarrow> (string \<times> pyval) list \<Rightarrow> string \<Rightarrow> diag list \<Rightarrow> pyexn + diag list"
  and validate_each :: "re_engine \<Rightarrow> pyval list \<Rightarrow> pyval \<Rightarrow> nat \<Rightarrow> string \<Rightarrow> diag list \<Rightarrow> pyexn + diag list"
  and validate_zip :: "re_engine \<Rightarrow> pyval list \<Rightarrow> pyval list \<Rightarrow> nat \<Rightarrow> string \<Rightarrow> diag list \<Rightarrow> pyexn + diag list"
where
  "validate_field re_match response_value original_schema_value field_path errors =
    (let is_optional =
           (case original_schema_value of
              PStr s \<Rightarrow> startswith s OPTIONAL_FIELD_PREFIX
            | _ \<Rightarrow> False);
         schema_value =
           (case original_schema_value of
              PStr s \<Rightarrow> if startswith s OPTIONAL_FIELD_PREFIX
                        then PStr (drop (length OPTIONAL_FIELD_PREFIX) s) else PStr s
            | other \<Rightarrow> other)
     in
     if is_optional \<and> response_value = PNone then Inr errors
     else if py_eq schema_value (PStr PRESENT_FIELD) then
       (if response_value = PNone then Inr (errors @ [MissingPresent field_path])
        else Inr errors)
     else if py_eq schema_value (PStr IGNORE_FIELD) then Inr errors
     else
       case (if \<not> is_optional \<and> response_value = PNone
                \<and> py_ne schema_value (PStr NULL_FIELD)
                \<and> \<not> isinstance_list_dict schema_value
                \<and> \<not> isinstance_str schema_value
             then py_startswith schema_value EMPTY_LIST_FIELD
             else Inr False) of
         Inl exn \<Rightarrow> Inl exn
       | Inr True \<Rightarrow> Inr (errors @ [MissingValue field_path])
       | Inr False \<Rightarrow>
          (case schema_value of
             PStr sv \<Rightarrow>
               if startswith sv EMPTY_LIST_FIELD then
                 (if (case response_value of PList xs \<Rightarrow> length xs \<noteq> 0 | _ \<Rightarrow> True)
                  then Inr (errors @ [ExpectedEmptyArray field_path (type_name response_value)])
                  else Inr errors)
               else if sv = STRING_FIELD then
                 (if \<not> isinstance_str response_value
                  then Inr (errors @ [ExpectedKind field_path ''string'' (type_name response_value)])
                  else Inr errors)
               else if sv = NUMBER_FIELD then
                 (if \<not> isinstance_int_float response_value
                  then Inr (errors @ [ExpectedKind field_path ''number'' (type_name response_value)])
                  else Inr errors)
               else if sv = BOOLEAN_FIELD then
                 (if \<not> isinstance_bool response_value
                  then Inr (errors @ [ExpectedKind field_path ''boolean'' (type_name response_value)])
                  else Inr errors)
               else if sv = OBJECT_FIELD then
                 (if \<not> isinstance_dict response_value
                  then Inr (errors @ [ExpectedKind field_path ''object'' (type_name response_value)])
                  else Inr errors)
               else if sv = ARRAY_FIELD then
                 (if \<not> isinstance_list response_value
                  then Inr (errors @ [ExpectedKind field_path ''array'' (type_name response_value)])
                  else Inr errors)
               else if sv = NOTNULL_FIELD then
                 (if response_value = PNone then Inr (errors @ [ExpectedNotNull field_path])
                  else Inr errors)
               else if sv = NULL_FIELD then
                 (if response_value \<noteq> PNone
                  then Inr (errors @ [ExpectedNull field_path (type_name response_value) response_value])
                  else Inr errors)
               else if startswith sv REGEX_FIELD then
                 (let pattern = drop (length REGEX_FIELD) sv in
                  case response_value of
                    PStr r \<Rightarrow>
                      (case re_match pattern r of
                         Inl exn \<Rightarrow> Inl exn
                       | Inr matched \<Rightarrow>
                           if \<not> matched then Inr (errors @ [RegexMismatch field_path r pattern])
                           else Inr errors)
                  | _ \<Rightarrow> Inr (errors @ [RegexNotString field_path pattern (type_name response_value)]))
               else
                 (if py_ne response_value schema_value
                  then Inr (errors @ [ValueMismatch field_path schema_value response_value])
                  else Inr errors)
           | PDict schema_items \<Rightarrow>
               (case response_value of
                  PDict response_items \<Rightarrow>
                    validate_items re_match response_items schema_items field_path errors
                | _ \<Rightarrow> Inr (errors @ [ExpectedKind field_path ''object'' (type_name response_value)]))
           | PList schema_list \<Rightarrow>
               if length schema_list = 1 \<and> isinstance_dict_list_str (hd schema_list) then
                 (case response_value of
                    PList response_list \<Rightarrow>
                      validate_each re_match response_list (hd schema_list) 0 field_path errors
                  | _ \<Rightarrow> Inr (errors @ [ExpectedKind field_path ''array'' (type_name response_value)]))
               else
                 (case response_value of
                    PList response_list \<Rightarrow>
                      if length response_list \<noteq> length schema_list
                      then Inr (errors @ [LengthMismatch field_path (length schema_list) (length response_list)])
                      else validate_zip re_match response_list schema_list 0 field_path errors
                  | _ \<Rightarrow> Inr (errors @ [ExpectedKind field_path ''array'' (type_name response_value)]))
           | _ \<Rightarrow>
               if py_ne response_value schema_value
               then Inr (errors @ [ValueMismatch field_path schema_value response_value])
               else Inr errors))"
| "validate_items re_match response_items [] field_path errors = Inr errors"
| "validate_items re_match response_items ((key, val) # rest) field_path errors =
    (case validate_field re_match (dict_get response_items key) val (field_path @ ''.'' @ key) errors of
       Inl exn \<Rightarrow> Inl exn
     | Inr errors' \<Rightarrow> validate_items re_match response_items rest field_path errors')"
| "validate_each re_match [] item_schema index field_path errors = Inr errors"
| "validate_each re_match (item # rest) item_schema index field_path errors =
    (case validate_field re_match item item_schema
            (field_path @ ''['' @ str_of_nat index @ '']'') errors of
       Inl exn \<Rightarrow> Inl exn
     | Inr errors' \<Rightarrow> validate_each re_match rest item_schema (Suc index) field_path errors')"
| "validate_zip re_match (resp_item # resp_rest) (schema_item # schema_rest) index field_path errors =
    (case validate_field re_match resp_item schema_item
            (field_path @ ''['' @ str_of_nat index @ '']'') errors of
       Inl exn \<Rightarrow> Inl exn
     | Inr errors' \<Rightarrow> validate_zip re_match resp_rest schema_rest (Suc index) field_path errors')"
| "validate_zip re_match [] schema_list index field_path errors = Inr errors"
| "validate_zip re_match (resp_item # resp_rest) [] index field_path errors = Inr errors"
  by pat_completeness auto
termination
  apply (relation "inv_image (less_than <*lex*> less_than)
     (\<lambda>x. case x of
         Inl (Inl (rm, rv, s, p, e)) \<Rightarrow> (size s, 0)
       | Inl (Inr (rm, r, kvs, p, e)) \<Rightarrow> (size_list (size_prod (\<lambda>_. 0) size) kvs, 1)
       | Inr (Inl (rm, xs, s, i, p, e)) \<Rightarrow> (size s, Suc (length xs))
       | Inr (Inr (rm, xs, ss, i, p, e)) \<Rightarrow> (size_list size ss, 1))")
  subgoal by (intro wf_inv_image wf_lex_prod wf_less_than)
  by (auto split: pyval.splits if_splits simp: length_Suc_conv)

declare validate_field.simps [simp del]

text \<open>
  \<open>validate_json_schema\<close>: a fresh \<open>errors\<close> list, one walk from the empty field
  path, then the pair.  \<open>Joined errors\<close> stands for \<open>"\n".join(errors)\<close>.
\<close>

datatype message = Validation_successful | Joined "diag list"

definition validate_json_schema :: "re_engine \<Rightarrow> pyval \<Rightarrow> pyval \<Rightarrow> pyexn + bool \<times> message" where
  "validate_json_schema re_match response_data schema =
    (case validate_field re_match response_data schema [] [] of
       Inl exn \<Rightarrow> Inl exn
     | Inr errors \<Rightarrow>
         if errors \<noteq> [] then Inr (False, Joined errors)
         else Inr (True, Validation_successful))"

text \<open>The text of a message, with \<open>py_str\<close> as in \<open>diag_text\<close>.\<close>

fun join_lines :: "string list \<Rightarrow> string" where
  "join_lines [] = []"
| "join_lines [l] = l"
| "join_lines (l # ls) = l @ [CHR 0x0A] @ join_lines ls"

fun message_text :: "(pyval \<Rightarrow> string) \<Rightarrow> message \<Rightarrow> string" where
  "message_text py_str Validation_successful = ''Validation successful.''"
| "message_text py_str (Joined errors) = join_lines (map (diag_text py_str) errors)"

text \<open>
  A fragment of \<open>re.match\<close> for concrete runs: a pattern that is an optional
  leading \<open>^\<close> followed only by ordinary characters (none of
  \<open>. ^ $ * + ? { } [ ] \ | ( )\<close>) matches exactly the strings that begin with
  those characters.  Patterns outside the fragment are not interpreted; they are
  answered with \<open>ReError\<close>.
\<close>

definition re_metachars :: "char list" where
  "re_metachars = [CHR ''.'', CHR ''^'', CHR ''$'', CHR ''*'', CHR ''+'', CHR ''?'', CHR ''{'', CHR ''}'',
                   CHR ''['', CHR '']'', CHR 0x5C, CHR ''|'', CHR ''('', CHR '')'']"

definition re_match_plain :: re_engine where
  "re_match_plain pattern s =
    (let body = (case pattern of c # rest \<Rightarrow> if c = CHR ''^'' then rest else pattern | [] \<Rightarrow> [])
     in if list_all (\<lambda>c. c \<notin> set re_metachars) body then Inr (prefix body s) else Inl ReError)"

text \<open>What a walk that starts from the accumulator \<open>errors\<close> returns, given what the
  same walk returns from the empty accumulator.\<close>

definition appended :: "diag list \<Rightarrow> pyexn + diag list \<Rightarrow> pyexn + diag list" where
  "appended errors r = (case r of Inl exn \<Rightarrow> Inl exn | Inr ds \<Rightarrow> Inr (errors @ ds))"

text \<open>The field path of element \<open>index\<close> below \<open>field_path\<close>.\<close>

definition index_path :: "string \<Rightarrow> nat \<Rightarrow> string" where
  "index_path field_path index = field_path @ ''['' @ str_of_nat index @ '']''"

text \<open>A literal schema node: a number, a boolean, or a string that is neither
  prefixed \<open>##\<close> nor one of the tokens.\<close>

definition sentinel :: "string \<Rightarrow> bool" where
  "sentinel s =
     (startswith s OPTIONAL_FIELD_PREFIX \<or> s = PRESENT_FIELD \<or> s = IGNORE_FIELD
      \<or> startswith s EMPTY_LIST_FIELD \<or> s = STRING_FIELD \<or> s = NUMBER_FIELD
      \<or> s = BOOLEAN_FIELD \<or> s = OBJECT_FIELD \<or> s = ARRAY_FIELD \<or> s = NOTNULL_FIELD
      \<or> s = NULL_FIELD \<or> startswith s REGEX_FIELD)"

fun literal :: "pyval \<Rightarrow> bool" where
  "literal (PStr s) = (\<not> sentinel s)"
| "literal (PInt _) = True"
| "literal (PFloat _) = True"
| "literal (PBool _) = True"
| "literal _ = False"

section \<open>The matcher with the list \<open>errors\<close> in a store\<close>

text \<open>
  The same function once more, with the mutable objects of the interpreter made
  explicit.  The only object a call creates and mutates is the list \<open>errors\<close>
  (the sets built from the keys are never changed or read, and the default
  \<open>field_path=""\<close> is an immutable \<open>str\<close>), so a store is the sequence of the list
  objects created so far, each with its current contents; the address of an object
  is its position.  \<open>list_new\<close> is the evaluation of \<open>[]\<close>: a new empty list behind
  all existing ones.  \<open>list_append a d\<close> is \<open>.append(d)\<close> on the list at address
  \<open>a\<close>.
\<close>

type_synonym store = "diag list list"

definition list_new :: "store \<Rightarrow> nat \<times> store" where
  "list_new st = (length st, st @ [[]])"

definition list_append :: "nat \<Rightarrow> diag \<Rightarrow> store \<Rightarrow> store" where
  "list_append a d st = st[a := st ! a @ [d]]"

text \<open>
  \<open>_validate_field\<close> as a closure: \<open>errors\<close> is the address its free variable
  \<open>errors\<close> is bound to, every \<open>errors.append\<close> changes the store at that address,
  and the result is the exception raised, if any, with the store as it is then.
\<close>

function validate_field_st :: "re_engine \<Rightarrow> nat \<Rightarrow> pyval \<Rightarrow> pyval \<Rightarrow> string \<Rightarrow> store \<Rightarrow> pyexn option \<times> store"
  and validate_items_st :: "re_engine \<Rightarrow> nat \<Rightarrow> (string \<times> pyval) list \<Rightarrow> (string \<times> pyval) list \<Rightarrow> string \<Rightarrow> store \<Rightarrow> pyexn option \<times> store"
  and validate_each_st :: "re_engine \<Rightarrow> nat \<Rightarrow> pyval list \<Rightarrow> pyval \<Rightarrow> nat \<Rightarrow> string \<Rightarrow> store \<Rightarrow> pyexn option \<times> store"
  and validate_zip_st :: "re_engine \<Rightarrow> nat \<Rightarrow> pyval list \<Rightarrow> pyval list \<Rightarrow> nat \<Rightarrow> string \<Rightarrow> store \<Rightarrow> pyexn option \<times> store"
where
  "validate_field_st re_match errors response_value original_schema_value field_path st =
    (let is_optional =
           (case original_schema_value of
              PStr s \<Rightarrow> startswith s OPTIONAL_FIELD_PREFIX
            | _ \<Rightarrow> False);
         schema_value =
           (case original_schema_value of
              PStr s \<Rightarrow> if startswith s OPTIONAL_FIELD_PREFIX
                        then PStr (drop (length OPTIONAL_FIELD_PREFIX) s) else PStr s
            | other \<Rightarrow> other)
     in
     if is_optional \<and> response_value = PNone then (None, st)
     else if py_eq schema_value (PStr PRESENT_FIELD) then
       (if response_value = PNone then (None, list_append errors (MissingPresent field_path) st)
        else (None, st))
     else if py_eq schema_value (PStr IGNORE_FIELD) then (None, st)
     else
       case (if \<not> is_optional \<and> response_value = PNone
                \<and> py_ne schema_value (PStr NULL_FIELD)
                \<and> \<not> isinstance_list_dict schema_value
                \<and> \<not> isinstance_str schema_value
             then py_startswith schema_value EMPTY_LIST_FIELD
             else Inr False) of
         Inl exn \<Rightarrow> (Some exn, st)
       | Inr True \<Rightarrow> (None, list_append errors (MissingValue field_path) st)
       | Inr False \<Rightarrow>
          (case schema_value of
             PStr sv \<Rightarrow>
               if startswith sv EMPTY_LIST_FIELD then
                 (if (case response_value of PList xs \<Rightarrow> length xs \<noteq> 0 | _ \<Rightarrow> True)
                  then (None, list_append errors (ExpectedEmptyArray field_path (type_name response_value)) st)
                  else (None, st))
               else if sv = STRING_FIELD then
                 (if \<not> isinstance_str response_value
                  then (None, list_append errors (ExpectedKind field_path ''string'' (type_name response_value)) st)
                  else (None, st))
               else if sv = NUMBER_FIELD then
                 (if \<not> isinstance_int_float response_value
                  then (None, list_append errors (ExpectedKind field_path ''number'' (type_name response_value)) st)
                  else (None, st))
               else if sv = BOOLEAN_FIELD then
                 (if \<not> isinstance_bool response_value
                  then (None, list_append errors (ExpectedKind field_path ''boolean'' (type_name response_value)) st)
                  else (None, st))
               else if sv = OBJECT_FIELD then
                 (if \<not> isinstance_dict response_value
                  then (None, list_append errors (ExpectedKind field_path ''object'' (type_name response_value)) st)
                  else (None, st))
               else if sv = ARRAY_FIELD then
                 (if \<not> isinstance_list response_value
                  then (None, list_append errors (ExpectedKind field_path ''array'' (type_name response_value)) st)
                  else (None, st))
               else if sv = NOTNULL_FIELD then
                 (if response_value = PNone then (None, list_append errors (ExpectedNotNull field_path) st)
                  else (None, st))
               else if sv = NULL_FIELD then
                 (if response_value \<noteq> PNone
                  then (None, list_append errors (ExpectedNull field_path (type_name response_value) response_value) st)
                  else (None, st))
               else if startswith sv REGEX_FIELD then
                 (let pattern = drop (length REGEX_FIELD) sv in
                  case response_value of
                    PStr r \<Rightarrow>
                      (case re_match pattern r of
                         Inl exn \<Rightarrow> (Some exn, st)
                       | Inr matched \<Rightarrow>
                           if \<not> matched then (None, list_append errors (RegexMismatch field_path r pattern) st)
                           else (None, st))
                  | _ \<Rightarrow> (None, list_append errors (RegexNotString field_path pattern (type_name response_value)) st))
               else
                 (if py_ne response_value schema_value
                  then (None, list_append errors (ValueMismatch field_path schema_value response_value) st)
                  else (None, st))
           | PDict schema_items \<Rightarrow>
               (case response_value of
                  PDict response_items \<Rightarrow>
                    validate_items_st re_match errors response_items schema_items field_path st
                | _ \<Rightarrow> (None, list_append errors (ExpectedKind field_path ''object'' (type_name response_value)) st))
           | PList schema_list \<Rightarrow>
               if length schema_list = 1 \<and> isinstance_dict_list_str (hd schema_list) then
                 (case response_value of
                    PList response_list \<Rightarrow>
                      validate_each_st re_match errors response_list (hd schema_list) 0 field_path st
                  | _ \<Rightarrow> (None, list_append errors (ExpectedKind field_path ''array'' (type_name response_value)) st))
               else
                 (case response_value of
                    PList response_list \<Rightarrow>
                      if length response_list \<noteq> length schema_list
                      then (None, list_append errors (LengthMismatch field_path (length schema_list) (length response_list)) st)
                      else validate_zip_st re_match errors response_list schema_list 0 field_path st
                  | _ \<Rightarrow> (None, list_append errors (ExpectedKind field_path ''array'' (type_name response_value)) st))
           | _ \<Rightarrow>
               if py_ne response_value schema_value
               then (None, list_append errors (ValueMismatch field_path schema_value response_value) st)
               else (None, st)))"
| "validate_items_st re_match errors response_items [] field_path st = (None, st)"
| "validate_items_st re_match errors response_items ((key, val) # rest) field_path st =
    (case validate_field_st re_match errors (dict_get response_items key) val (field_path @ ''.'' @ key) st of
       (Some exn, st') \<Rightarrow> (Some exn, st')
     | (None, st') \<Rightarrow> validate_items_st re_match errors response_items rest field_path st')"
| "validate_each_st re_match errors [] item_schema index field_path st = (None, st)"
| "validate_each_st re_match errors (item # rest) item_schema index field_path st =
    (case validate_field_st re_match errors item item_schema
            (field_path @ ''['' @ str_of_nat index @ '']'') st of
       (Some exn, st') \<Rightarrow> (Some exn, st')
     | (None, st') \<Rightarrow> validate_each_st re_match errors rest item_schema (Suc index) field_path st')"
| "validate_zip_st re_match errors (resp_item # resp_rest) (schema_item # schema_rest) index field_path st =
    (case validate_field_st re_match errors resp_item schema_item
            (field_path @ ''['' @ str_of_nat index @ '']'') st of
       (Some exn, st') \<Rightarrow> (Some exn, st')
     | (None, st') \<Rightarrow> validate_zip_st re_match errors resp_rest schema_rest (Suc index) field_path st')"
| "validate_zip_st re_match errors [] schema_list index field_path st = (None, st)"
| "validate_zip_st re_match errors (resp_item # resp_rest) [] index field_path st = (None, st)"
  by pat_completeness auto
termination
  apply (relation "inv_image (less_than <*lex*> less_than)
     (\<lambda>x. case x of
         Inl (Inl (rm, a, rv, s, p, e)) \<Rightarrow> (size s, 0)
       | Inl (Inr (rm, a, r, kvs, p, e)) \<Rightarrow> (size_list (size_prod (\<lambda>_. 0) size) kvs, 1)
       | Inr (Inl (rm, a, xs, s, i, p, e)) \<Rightarrow> (size s, Suc (length xs))
       | Inr (Inr (rm, a, xs, ss, i, p, e)) \<Rightarrow> (size_list size ss, 1))")
  subgoal by (intro wf_inv_image wf_lex_prod wf_less_than)
  by (auto split: pyval.splits if_splits simp: length_Suc_conv)


declare validate_field_st.simps [simp del]

text \<open>
  \<open>validate_json_schema\<close> on a store: line 22 binds \<open>errors\<close> to a new list, the walk
  runs on the store, and the pair is built from what the list holds afterwards.
\<close>

definition validate_json_schema_st ::
  "re_engine \<Rightarrow> pyval \<Rightarrow> pyval \<Rightarrow> store \<Rightarrow> (pyexn + bool \<times> message) \<times> store" where
  "validate_json_schema_st re_match response_data schema st =
    (case list_new st of
       (errors, st1) \<Rightarrow>
         (case validate_field_st re_match errors response_data schema [] st1 of
            (Some exn, st2) \<Rightarrow> (Inl exn, st2)
          | (None, st2) \<Rightarrow>
              if st2 ! errors \<noteq> [] then (Inr (False, Joined (st2 ! errors)), st2)
              else (Inr (True, Validation_successful), st2)))"

text \<open>
  A caller that makes several calls one after the other on the one store, keeps
  each result (an exception included) and goes on.
\<close>

fun run_calls_st ::
  "re_engine \<Rightarrow> (pyval \<times> pyval) list \<Rightarrow> store \<Rightarrow> (pyexn + bool \<times> message) list \<times> store" where
  "run_calls_st re_match [] st = ([], st)"
| "run_calls_st re_match ((response_data, schema) # rest) st =
    (case validate_json_schema_st re_match response_data schema st of
       (r, st1) \<Rightarrow> (case run_calls_st re_match rest st1 of (rs, st2) \<Rightarrow> (r # rs, st2)))"

text \<open>What a walk in the store shows at the address \<open>a\<close>: the exception, or the
  contents of the list at \<open>a\<close>; and that it left every other object as it was.\<close>

definition outcome :: "nat \<Rightarrow> pyexn option \<times> store \<Rightarrow> pyexn + diag list" where
  "outcome a r = (case fst r of Some exn \<Rightarrow> Inl exn | None \<Rightarrow> Inr (snd r ! a))"

definition touches_only :: "nat \<Rightarrow> store \<Rightarrow> pyexn option \<times> store \<Rightarrow> bool" where
  "touches_only a st r = (snd r = st[a := snd r ! a])"

section \<open>File lookup (utils/file\_handle.py) and JSON loading (utils/common.py)\<close>

text \<open>
  The operating system and the \<open>json\<close> library, as the two functions use them:
  \<open>is_file p\<close> is \<open>Path(p).is_file()\<close>, \<open>resolve p\<close> is \<open>str(Path(p).resolve())\<close>,
  \<open>rglob d pat\<close> is the list \<open>Path(d).rglob(pat)\<close> yields (or the exception it
  raises for a pattern it does not accept), \<open>path_exists p\<close> is
  \<open>os.path.exists(p)\<close>, \<open>open_read p\<close> is the text \<open>open(p, 'r')\<close> gives,
  \<open>json_loads\<close> is the parser behind \<open>json.load\<close>.
\<close>

datatype os_exn =
    Multiple_files_found string string "string list"
  | No_file_found string string
  | Glob_error
  | OS_error
  | JSON_decode_error

record os_env =
  is_file :: "string \<Rightarrow> bool"
  resolve :: "string \<Rightarrow> string"
  rglob :: "string \<Rightarrow> string \<Rightarrow> os_exn + string list"
  path_exists :: "string \<Rightarrow> bool"
  open_read :: "string \<Rightarrow> os_exn + string"
  json_loads :: "string \<Rightarrow> os_exn + pyval"

definition get_abs_file_path :: "os_env \<Rightarrow> string \<Rightarrow> string \<Rightarrow> os_exn + string" where
  "get_abs_file_path env pattern elative_path =
    (if is_file env pattern then Inr (resolve env pattern)
     else
       case rglob env elative_path pattern of
         Inl exn \<Rightarrow> Inl exn
       | Inr candidates \<Rightarrow>
          (let found_files = filter (is_file env) candidates in
           if length found_files > 1
           then Inl (Multiple_files_found pattern elative_path found_files)
           else if length found_files = 0
           then Inl (No_file_found pattern elative_path)
           else Inr (resolve env (found_files ! 0))))"

text \<open>\<open>read_json_file\<close> returns its result together with the operations it
  performed on the file system, in order.\<close>

datatype io_event = Exists string | Open string | Json_load string

definition read_json_file :: "os_env \<Rightarrow> string \<Rightarrow> (os_exn + pyval) \<times> io_event list" where
  "read_json_file env file_path =
    (if path_exists env file_path then
       (case open_read env file_path of
          Inl exn \<Rightarrow> (Inl exn, [Exists file_path, Open file_path])
        | Inr content \<Rightarrow>
            (json_loads env content, [Exists file_path, Open file_path, Json_load content]))
     else (Inr (PDict []), [Exists file_path]))"

text \<open>A file system for concrete runs: one directory \<open>res\<close> with two JSON files.\<close>

definition demo_env :: os_env where
  "demo_env =
    \<lparr> is_file = (\<lambda>p. p \<in> set [''res/sg/login.json'', ''res/my/login.json'', ''res/sg/user.json'']),
      resolve = (\<lambda>p. ''/work/'' @ p),
      rglob = (\<lambda>d pat.
         if pat = [] then Inl Glob_error
         else Inr (filter (\<lambda>p. prefix (d @ ''/'') p \<and> suffix (''/'' @ pat) p)
                     [''res/my/login.json'', ''res/sg/login.json'', ''res/sg/user.json''])),
      path_exists = (\<lambda>p. p \<in> set [''res'', ''res/sg'', ''res/my'', ''res/sg/login.json'',
                                   ''res/my/login.json'', ''res/sg/user.json'']),
      open_read = (\<lambda>p. if p = ''res/sg/user.json'' then Inr ''{}'' else Inl OS_error),
      json_loads = (\<lambda>t. if t = ''{}'' then Inr (PDict []) else Inl JSON_decode_error) \<rparr>"

section \<open>Properties of the schema matcher\<close>

lemmas eval_defs =
  validate_json_schema_def validate_field.simps isinstance_list_dict_def
  isinstance_dict_list_str_def py_ne_def dict_get_def token_defs startswith_def

subsection \<open>The accumulator\<close>

text \<open>A walk only ever appends to \<open>errors\<close>: started from the accumulator \<open>e\<close> it
  returns \<open>e\<close> followed by what it returns from the empty accumulator, and it raises
  exactly when the walk from the empty accumulator raises.\<close>

lemma appended_simps [simp]:
  "appended e (Inl x) = Inl x"
  "appended e (Inr ds) = Inr (e @ ds)"
  by (simp_all add: appended_def)

lemma appended_appended: "appended e (appended d r) = appended (e @ d) r"
  by (cases r) simp_all

lemma appended_Nil [simp]: "appended [] r = r"
  by (cases r) simp_all

lemma validate_field_PDict:
  "validate_field rm rv (PDict kvs) p e =
     (case rv of PDict r \<Rightarrow> validate_items rm r kvs p e
      | _ \<Rightarrow> Inr (e @ [ExpectedKind p ''object'' (type_name rv)]))"
  by (simp add: validate_field.simps isinstance_list_dict_def py_ne_def split: pyval.splits)

lemma validate_field_PList_each:
  "isinstance_dict_list_str s \<Longrightarrow> validate_field rm rv (PList [s]) p e =
     (case rv of PList xs \<Rightarrow> validate_each rm xs s 0 p e
      | _ \<Rightarrow> Inr (e @ [ExpectedKind p ''array'' (type_name rv)]))"
  by (simp add: validate_field.simps isinstance_list_dict_def py_ne_def split: pyval.splits)

lemma validate_field_PList_zip:
  "\<not> (length ss = 1 \<and> isinstance_dict_list_str (hd ss)) \<Longrightarrow> validate_field rm rv (PList ss) p e =
     (case rv of
        PList xs \<Rightarrow> if length xs \<noteq> length ss then Inr (e @ [LengthMismatch p (length ss) (length xs)])
                    else validate_zip rm xs ss 0 p e
      | _ \<Rightarrow> Inr (e @ [ExpectedKind p ''array'' (type_name rv)]))"
  by (auto simp add: validate_field.simps isinstance_list_dict_def py_ne_def split: pyval.splits)

lemma validate_field_scalar:
  "\<not> isinstance_str s \<Longrightarrow> \<not> isinstance_list_dict s \<Longrightarrow> validate_field rm rv s p e =
     (if rv = PNone then Inl AttributeError
      else if py_ne rv s then Inr (e @ [ValueMismatch p s rv]) else Inr e)"
  by (cases s) (simp_all add: validate_field.simps isinstance_list_dict_def py_ne_def)

lemma validate_field_PStr_appended:
  "validate_field rm rv (PStr s) p e = appended e (validate_field rm rv (PStr s) p [])"
  unfolding validate_field.simps[of rm rv "PStr s" p e] validate_field.simps[of rm rv "PStr s" p "[]"]
  by (cases "startswith s OPTIONAL_FIELD_PREFIX")
     (simp_all add: Let_def if_distrib[of "appended e"] pyval.case_distrib[of "appended e"]
        sum.case_distrib[of "appended e"] bool.case_distrib[of "appended e"]
        split del: if_split cong: if_cong pyval.case_cong sum.case_cong)

lemma validate_each_appended:
  assumes "\<And>v p e. validate_field rm v s p e = appended e (validate_field rm v s p [])"
  shows "validate_each rm xs s i p e = appended e (validate_each rm xs s i p [])"
proof (induction xs arbitrary: i e)
  case Nil
  show ?case by simp
next
  case (Cons x xs)
  let ?q = "p @ ''['' @ str_of_nat i @ '']''"
  have step: "validate_field rm x s ?q e = appended e (validate_field rm x s ?q [])"
    by (rule assms)
  show ?case
  proof (cases "validate_field rm x s ?q []")
    case (Inl a)
    then show ?thesis using step by simp
  next
    case (Inr d)
    then show ?thesis
      using step Cons.IH[of "Suc i" "e @ d"] Cons.IH[of "Suc i" d]
      by (simp add: appended_appended)
  qed
qed

lemma validate_items_appended:
  assumes "\<And>k s v p e. (k, s) \<in> set kvs \<Longrightarrow>
             validate_field rm v s p e = appended e (validate_field rm v s p [])"
  shows "validate_items rm r kvs p e = appended e (validate_items rm r kvs p [])"
  using assms
proof (induction kvs arbitrary: e)
  case Nil
  show ?case by simp
next
  case (Cons kv kvs)
  obtain k s where kv: "kv = (k, s)" by (cases kv)
  let ?q = "p @ ''.'' @ k"
  have step: "validate_field rm (dict_get r k) s ?q e
                 = appended e (validate_field rm (dict_get r k) s ?q [])"
    by (rule Cons.prems[of k]) (simp add: kv)
  have rest: "validate_items rm r kvs p e' = appended e' (validate_items rm r kvs p [])" for e'
  proof (rule Cons.IH)
    fix k' s' v' p' e''
    assume "(k', s') \<in> set kvs"
    then show "validate_field rm v' s' p' e'' = appended e'' (validate_field rm v' s' p' [])"
      by (intro Cons.prems[of k' s']) simp
  qed
  show ?case
  proof (cases "validate_field rm (dict_get r k) s ?q []")
    case (Inl a)
    then show ?thesis using step kv by simp
  next
    case (Inr d)
    then show ?thesis
      using step rest[of "e @ d"] rest[of d] kv
      by (simp add: appended_appended)
  qed
qed

lemma validate_zip_appended:
  assumes "\<And>s v p e. s \<in> set ss \<Longrightarrow>
             validate_field rm v s p e = appended e (validate_field rm v s p [])"
  shows "validate_zip rm xs ss i p e = appended e (validate_zip rm xs ss i p [])"
  using assms
proof (induction xs arbitrary: ss i e)
  case Nil
  show ?case by simp
next
  case (Cons x xs)
  show ?case
  proof (cases ss)
    case Nil
    then show ?thesis by simp
  next
    case (Cons s ss')
    let ?q = "p @ ''['' @ str_of_nat i @ '']''"
    have step: "validate_field rm x s ?q e = appended e (validate_field rm x s ?q [])"
      by (rule Cons.prems) (simp add: Cons)
    have rest: "validate_zip rm xs ss' (Suc i) p e'
                   = appended e' (validate_zip rm xs ss' (Suc i) p [])" for e'
    proof (rule Cons.IH)
      fix s' v' p' e''
      assume "s' \<in> set ss'"
      then show "validate_field rm v' s' p' e'' = appended e'' (validate_field rm v' s' p' [])"
        by (intro Cons.prems[of s']) (simp add: Cons)
    qed
    show ?thesis
    proof (cases "validate_field rm x s ?q []")
      case (Inl a)
      then show ?thesis using step Cons by simp
    next
      case (Inr d)
      then show ?thesis
        using step rest[of "e @ d"] rest[of d] Cons
        by (simp add: appended_appended)
    qed
  qed
qed

lemma validate_field_appended:
  "validate_field rm v s p e = appended e (validate_field rm v s p [])"
proof (induction s arbitrary: v p e)
  case (PStr s)
  show ?case by (rule validate_field_PStr_appended)
next
  case (PList ss)
  show ?case
  proof (cases "length ss = 1 \<and> isinstance_dict_list_str (hd ss)")
    case True
    then obtain s0 where ss: "ss = [s0]" and s0: "isinstance_dict_list_str s0"
      by (cases ss) auto
    have each: "validate_each rm xs s0 0 p e = appended e (validate_each rm xs s0 0 p [])" for xs
      by (rule validate_each_appended) (rule PList.IH, simp add: ss)
    show ?thesis
    proof (cases v)
      case (PList xs)
      then show ?thesis using each[of xs] s0 by (simp add: ss validate_field_PList_each)
    qed (simp_all add: ss s0 validate_field_PList_each)
  next
    case False
    have zip: "validate_zip rm xs ss 0 p e = appended e (validate_zip rm xs ss 0 p [])" for xs
      by (rule validate_zip_appended) (rule PList.IH)
    show ?thesis
    proof (cases v)
      case (PList xs)
      then show ?thesis using zip[of xs] by (simp add: validate_field_PList_zip[OF False])
    qed (simp_all add: validate_field_PList_zip[OF False])
  qed
next
  case (PDict kvs)
  have items: "validate_items rm r kvs p e = appended e (validate_items rm r kvs p [])" for r
  proof (rule validate_items_appended)
    fix k s v' p' e'
    assume "(k, s) \<in> set kvs"
    then show "validate_field rm v' s p' e' = appended e' (validate_field rm v' s p' [])"
      by (rule PDict.IH) simp
  qed
  show ?case
  proof (cases v)
    case (PDict r)
    then show ?thesis using items[of r] by (simp add: validate_field_PDict)
  qed (simp_all add: validate_field_PDict)
qed (simp_all add: validate_field_scalar isinstance_list_dict_def)

subsection \<open>What single schema nodes do\<close>

lemma validate_each_passes_iff:
  "validate_each rm xs s i p [] = Inr [] \<longleftrightarrow>
     (\<forall>j<length xs. validate_field rm (xs ! j) s (index_path p (i + j)) [] = Inr [])"
proof (induction xs arbitrary: i)
  case Nil
  show ?case by simp
next
  case (Cons x xs)
  let ?q = "p @ ''['' @ str_of_nat i @ '']''"
  have all_Suc: "(\<forall>j<Suc (length xs). P j) \<longleftrightarrow> P 0 \<and> (\<forall>j<length xs. P (Suc j))" for P
    by (auto simp add: less_Suc_eq_0_disj)
  show ?case
  proof (cases "validate_field rm x s ?q []")
    case (Inl a)
    then show ?thesis by (auto simp add: index_path_def)
  next
    case (Inr d)
    have rest: "validate_each rm xs s (Suc i) p d = appended d (validate_each rm xs s (Suc i) p [])"
      by (rule validate_each_appended) (rule validate_field_appended)
    show ?thesis
    proof (cases "validate_each rm xs s (Suc i) p []")
      case (Inl a)
      then show ?thesis using Inr rest Cons.IH[of "Suc i"]
        by (simp add: all_Suc index_path_def)
    next
      case (Inr ds)
      then show ?thesis using \<open>validate_field rm x s ?q [] = Inr d\<close> rest Cons.IH[of "Suc i"]
        by (simp add: all_Suc index_path_def)
    qed
  qed
qed

lemma validate_each_concat:
  "(\<forall>j<length xs. validate_field rm (xs ! j) s (index_path p (i + j)) [] = Inr (ds (i + j))) \<Longrightarrow>
     validate_each rm xs s i p [] = Inr (concat (map ds [i..<i + length xs]))"
proof (induction xs arbitrary: i)
  case Nil
  show ?case by simp
next
  case (Cons x xs)
  have hd: "validate_field rm x s (p @ ''['' @ str_of_nat i @ '']'') [] = Inr (ds i)"
    using Cons.prems by (auto simp add: index_path_def dest: spec[of _ 0])
  have tl: "validate_each rm xs s (Suc i) p [] = Inr (concat (map ds [Suc i..<Suc i + length xs]))"
  proof (rule Cons.IH, intro allI impI)
    fix j assume "j < length xs"
    then show "validate_field rm (xs ! j) s (index_path p (Suc i + j)) [] = Inr (ds (Suc i + j))"
      using Cons.prems by (auto dest: spec[of _ "Suc j"])
  qed
  have rest: "validate_each rm xs s (Suc i) p (ds i) = appended (ds i) (validate_each rm xs s (Suc i) p [])"
    by (rule validate_each_appended) (rule validate_field_appended)
  have "[i..<i + length (x # xs)] = i # [Suc i..<Suc i + length xs]"
    by (subst upt_rec) simp
  then show ?case using hd tl rest by simp
qed

lemma regex_token_shape:
  "validate_field rm v (PStr (REGEX_FIELD @ pattern)) p [] =
     (case v of
        PStr r \<Rightarrow> (case rm pattern r of Inl exn \<Rightarrow> Inl exn
                   | Inr matched \<Rightarrow> if matched then Inr [] else Inr [RegexMismatch p r pattern])
      | _ \<Rightarrow> Inr [RegexNotString p pattern (type_name v)])"
  by (simp add: validate_field.simps token_defs startswith_def py_ne_def isinstance_list_dict_def
      split: pyval.splits sum.splits)

lemma number_token_shape:
  "validate_field rm v (PStr NUMBER_FIELD) p [] =
     (if isinstance_int_float v then Inr [] else Inr [ExpectedKind p ''number'' (type_name v)])"
  by (simp add: validate_field.simps token_defs startswith_def py_ne_def isinstance_list_dict_def)

lemma boolean_token_shape:
  "validate_field rm v (PStr BOOLEAN_FIELD) p [] =
     (if isinstance_bool v then Inr [] else Inr [ExpectedKind p ''boolean'' (type_name v)])"
  by (simp add: validate_field.simps token_defs startswith_def py_ne_def isinstance_list_dict_def)

lemma literal_string_shape:
  "\<not> sentinel s \<Longrightarrow> validate_field rm v (PStr s) p [] =
     (if py_eq v (PStr s) then Inr [] else Inr [ValueMismatch p (PStr s) v])"
  by (simp add: validate_field.simps[of rm v "PStr s"] sentinel_def py_ne_def isinstance_list_dict_def)

lemma literal_shape:
  "literal L \<Longrightarrow> v \<noteq> PNone \<or> isinstance_str L \<Longrightarrow> validate_field rm v L p [] =
     (if py_eq v L then Inr [] else Inr [ValueMismatch p L v])"
  by (cases L) (simp_all add: literal_string_shape validate_field_scalar isinstance_list_dict_def py_ne_def)

subsection \<open>The walk in the store\<close>

text \<open>The walk in the store changes the list at its address as the walk over the
  accumulator changes the accumulator, and changes nothing else.\<close>

lemma outcome_simps [simp]:
  "outcome a (None, st) = Inr (st ! a)"
  "outcome a (Some exn, st) = Inl exn"
  by (simp_all add: outcome_def)

lemma touches_only_same [simp]: "touches_only a st (x, st)"
  by (simp add: touches_only_def)

lemma touches_only_append [simp]: "touches_only a st (x, list_append a d st)"
  by (cases "a < length st") (simp_all add: touches_only_def list_append_def list_update_beyond)

lemma list_append_nth [simp]: "a < length st \<Longrightarrow> list_append a d st ! a = st ! a @ [d]"
  by (simp add: list_append_def)

lemma walk_then:
  assumes a: "a < length st"
    and o1: "outcome a r1 = f1 (st ! a)"
    and t1: "touches_only a st r1"
    and k: "\<And>st'. a < length st' \<Longrightarrow> outcome a (k st') = f2 (st' ! a) \<and> touches_only a st' (k st')"
  shows "outcome a (case r1 of (Some exn, st') \<Rightarrow> (Some exn, st') | (None, st') \<Rightarrow> k st')
           = (case f1 (st ! a) of Inl exn \<Rightarrow> Inl exn | Inr e \<Rightarrow> f2 e)
         \<and> touches_only a st (case r1 of (Some exn, st') \<Rightarrow> (Some exn, st') | (None, st') \<Rightarrow> k st')"
proof -
  obtain x st' where r1: "r1 = (x, st')" by (cases r1)
  have st': "st' = st[a := st' ! a]" using t1 by (simp add: touches_only_def r1)
  then have len: "length st' = length st" by (metis length_list_update)
  show ?thesis
  proof (cases x)
    case (Some exn)
    have "f1 (st ! a) = Inl exn" using o1 by (simp add: r1 Some)
    then show ?thesis using t1 by (simp add: r1 Some)
  next
    case None
    have f1: "f1 (st ! a) = Inr (st' ! a)" using o1 by (simp add: r1 None)
    have ka: "outcome a (k st') = f2 (st' ! a)" and kt: "touches_only a st' (k st')"
      using k[of st'] a len by simp_all
    have "snd (k st') = st'[a := snd (k st') ! a]" using kt by (simp add: touches_only_def)
    also have "\<dots> = (st[a := st' ! a])[a := snd (k st') ! a]" using st' by simp
    also have "\<dots> = st[a := snd (k st') ! a]" by simp
    finally have "touches_only a st (k st')" by (simp add: touches_only_def)
    then show ?thesis using ka f1 by (simp add: r1 None)
  qed
qed

lemma validate_field_st_PStr:
  "a < length st \<Longrightarrow>
     outcome a (validate_field_st rm a rv (PStr s) p st) = validate_field rm rv (PStr s) p (st ! a)"
  unfolding validate_field_st.simps[of rm a rv "PStr s" p st] validate_field.simps[of rm rv "PStr s" p "st ! a"]
  by (cases "startswith s OPTIONAL_FIELD_PREFIX")
     (simp_all add: Let_def if_distrib[of "outcome a"] pyval.case_distrib[of "outcome a"]
        sum.case_distrib[of "outcome a"] bool.case_distrib[of "outcome a"]
        split del: if_split cong: if_cong pyval.case_cong sum.case_cong)

lemma validate_field_st_PStr_touches:
  "touches_only a st (validate_field_st rm a rv (PStr s) p st)"
  unfolding validate_field_st.simps[of rm a rv "PStr s" p st]
  by (cases "startswith s OPTIONAL_FIELD_PREFIX")
     (simp_all add: Let_def split: pyval.split sum.split bool.split)

lemma validate_field_st_PDict:
  "validate_field_st rm a rv (PDict kvs) p st =
     (case rv of PDict r \<Rightarrow> validate_items_st rm a r kvs p st
      | _ \<Rightarrow> (None, list_append a (ExpectedKind p ''object'' (type_name rv)) st))"
  by (simp add: validate_field_st.simps isinstance_list_dict_def py_ne_def split: pyval.splits)

lemma validate_field_st_PList_each:
  "isinstance_dict_list_str s \<Longrightarrow> validate_field_st rm a rv (PList [s]) p st =
     (case rv of PList xs \<Rightarrow> validate_each_st rm a xs s 0 p st
      | _ \<Rightarrow> (None, list_append a (ExpectedKind p ''array'' (type_name rv)) st))"
  by (simp add: validate_field_st.simps isinstance_list_dict_def py_ne_def split: pyval.splits)

lemma validate_field_st_PList_zip:
  "\<not> (length ss = 1 \<and> isinstance_dict_list_str (hd ss)) \<Longrightarrow> validate_field_st rm a rv (PList ss) p st =
     (case rv of
        PList xs \<Rightarrow> if length xs \<noteq> length ss
                    then (None, list_append a (LengthMismatch p (length ss) (length xs)) st)
                    else validate_zip_st rm a xs ss 0 p st
      | _ \<Rightarrow> (None, list_append a (ExpectedKind p ''array'' (type_name rv)) st))"
  by (auto simp add: validate_field_st.simps isinstance_list_dict_def py_ne_def split: pyval.splits)

lemma validate_field_st_scalar:
  "\<not> isinstance_str s \<Longrightarrow> \<not> isinstance_list_dict s \<Longrightarrow> validate_field_st rm a rv s p st =
     (if rv = PNone then (Some AttributeError, st)
      else if py_ne rv s then (None, list_append a (ValueMismatch p s rv) st) else (None, st))"
  by (cases s) (simp_all add: validate_field_st.simps isinstance_list_dict_def py_ne_def)

lemma validate_each_st_refines:
  assumes elem: "\<And>v p st. a < length st \<Longrightarrow>
        outcome a (validate_field_st rm a v s p st) = validate_field rm v s p (st ! a)
        \<and> touches_only a st (validate_field_st rm a v s p st)"
  shows "a < length st \<Longrightarrow>
        outcome a (validate_each_st rm a xs s i p st) = validate_each rm xs s i p (st ! a)
        \<and> touches_only a st (validate_each_st rm a xs s i p st)"
proof (induction xs arbitrary: i st)
  case Nil
  show ?case by simp
next
  case (Cons x xs)
  let ?q = "p @ ''['' @ str_of_nat i @ '']''"
  have "outcome a (case validate_field_st rm a x s ?q st of
                     (Some exn, st') \<Rightarrow> (Some exn, st')
                   | (None, st') \<Rightarrow> validate_each_st rm a xs s (Suc i) p st')
          = (case validate_field rm x s ?q (st ! a) of
               Inl exn \<Rightarrow> Inl exn | Inr e \<Rightarrow> validate_each rm xs s (Suc i) p e)
        \<and> touches_only a st (case validate_field_st rm a x s ?q st of
                     (Some exn, st') \<Rightarrow> (Some exn, st')
                   | (None, st') \<Rightarrow> validate_each_st rm a xs s (Suc i) p st')"
  proof (rule walk_then[where ?f1.0 = "\<lambda>e. validate_field rm x s ?q e"
        and ?f2.0 = "\<lambda>e. validate_each rm xs s (Suc i) p e"])
    show "a < length st" by (rule Cons.prems)
    show "outcome a (validate_field_st rm a x s ?q st) = validate_field rm x s ?q (st ! a)"
      using elem[OF Cons.prems] by blast
    show "touches_only a st (validate_field_st rm a x s ?q st)"
      using elem[OF Cons.prems] by blast
    show "outcome a (validate_each_st rm a xs s (Suc i) p st') = validate_each rm xs s (Suc i) p (st' ! a)
          \<and> touches_only a st' (validate_each_st rm a xs s (Suc i) p st')" if "a < length st'" for st'
      using that by (rule Cons.IH)
  qed
  then show ?case by simp
qed

lemma validate_items_st_refines:
  assumes elem: "\<And>k s v p st. (k, s) \<in> set kvs \<Longrightarrow> a < length st \<Longrightarrow>
        outcome a (validate_field_st rm a v s p st) = validate_field rm v s p (st ! a)
        \<and> touches_only a st (validate_field_st rm a v s p st)"
  shows "a < length st \<Longrightarrow>
        outcome a (validate_items_st rm a r kvs p st) = validate_items rm r kvs p (st ! a)
        \<and> touches_only a st (validate_items_st rm a r kvs p st)"
  using elem
proof (induction kvs arbitrary: st)
  case Nil
  show ?case by simp
next
  case (Cons kv kvs)
  obtain k s where kv: "kv = (k, s)" by (cases kv)
  let ?q = "p @ ''.'' @ k"
  have here: "outcome a (validate_field_st rm a (dict_get r k) s ?q st)
                = validate_field rm (dict_get r k) s ?q (st ! a)
              \<and> touches_only a st (validate_field_st rm a (dict_get r k) s ?q st)"
    by (rule Cons.prems(2)[of k s]) (simp_all add: kv Cons.prems(1))
  have "outcome a (case validate_field_st rm a (dict_get r k) s ?q st of
                     (Some exn, st') \<Rightarrow> (Some exn, st')
                   | (None, st') \<Rightarrow> validate_items_st rm a r kvs p st')
          = (case validate_field rm (dict_get r k) s ?q (st ! a) of
               Inl exn \<Rightarrow> Inl exn | Inr e \<Rightarrow> validate_items rm r kvs p e)
        \<and> touches_only a st (case validate_field_st rm a (dict_get r k) s ?q st of
                     (Some exn, st') \<Rightarrow> (Some exn, st')
                   | (None, st') \<Rightarrow> validate_items_st rm a r kvs p st')"
  proof (rule walk_then[where ?f1.0 = "\<lambda>e. validate_field rm (dict_get r k) s ?q e"
        and ?f2.0 = "\<lambda>e. validate_items rm r kvs p e"])
    show "a < length st" by (rule Cons.prems(1))
    show "outcome a (validate_field_st rm a (dict_get r k) s ?q st)
            = validate_field rm (dict_get r k) s ?q (st ! a)"
      using here by blast
    show "touches_only a st (validate_field_st rm a (dict_get r k) s ?q st)"
      using here by blast
    show "outcome a (validate_items_st rm a r kvs p st') = validate_items rm r kvs p (st' ! a)
          \<and> touches_only a st' (validate_items_st rm a r kvs p st')" if len: "a < length st'" for st'
    proof (rule Cons.IH[OF len])
      fix k' s' v' p' and st'' :: store
      assume "(k', s') \<in> set kvs" and "a < length st''"
      then show "outcome a (validate_field_st rm a v' s' p' st'') = validate_field rm v' s' p' (st'' ! a)
                 \<and> touches_only a st'' (validate_field_st rm a v' s' p' st'')"
        by (intro Cons.prems(2)[of k' s']) simp_all
    qed
  qed
  then show ?case by (simp add: kv)
qed

lemma validate_zip_st_refines:
  assumes elem: "\<And>s v p st. s \<in> set ss \<Longrightarrow> a < length st \<Longrightarrow>
        outcome a (validate_field_st rm a v s p st) = validate_field rm v s p (st ! a)
        \<and> touches_only a st (validate_field_st rm a v s p st)"
  shows "a < length st \<Longrightarrow>
        outcome a (validate_zip_st rm a xs ss i p st) = validate_zip rm xs ss i p (st ! a)
        \<and> touches_only a st (validate_zip_st rm a xs ss i p st)"
  using elem
proof (induction xs arbitrary: ss i st)
  case Nil
  show ?case by simp
next
  case (Cons x xs)
  show ?case
  proof (cases ss)
    case Nil
    then show ?thesis by simp
  next
    case (Cons s ss')
    let ?q = "p @ ''['' @ str_of_nat i @ '']''"
    have here: "outcome a (validate_field_st rm a x s ?q st) = validate_field rm x s ?q (st ! a)
              \<and> touches_only a st (validate_field_st rm a x s ?q st)"
      by (rule Cons.prems(2)[of s]) (simp_all add: Cons Cons.prems(1))
    have "outcome a (case validate_field_st rm a x s ?q st of
                     (Some exn, st') \<Rightarrow> (Some exn, st')
                   | (None, st') \<Rightarrow> validate_zip_st rm a xs ss' (Suc i) p st')
          = (case validate_field rm x s ?q (st ! a) of
               Inl exn \<Rightarrow> Inl exn | Inr e \<Rightarrow> validate_zip rm xs ss' (Suc i) p e)
        \<and> touches_only a st (case validate_field_st rm a x s ?q st of
                     (Some exn, st') \<Rightarrow> (Some exn, st')
                   | (None, st') \<Rightarrow> validate_zip_st rm a xs ss' (Suc i) p st')"
    proof (rule walk_then[where ?f1.0 = "\<lambda>e. validate_field rm x s ?q e"
          and ?f2.0 = "\<lambda>e. validate_zip rm xs ss' (Suc i) p e"])
      show "a < length st" by (rule Cons.prems(1))
      show "outcome a (validate_field_st rm a x s ?q st) = validate_field rm x s ?q (st ! a)"
        using here by blast
      show "touches_only a st (validate_field_st rm a x s ?q st)"
        using here by blast
      show "outcome a (validate_zip_st rm a xs ss' (Suc i) p st') = validate_zip rm xs ss' (Suc i) p (st' ! a)
            \<and> touches_only a st' (validate_zip_st rm a xs ss' (Suc i) p st')" if len: "a < length st'" for st'
      proof (rule Cons.IH[OF len])
        fix s' v' p' and st'' :: store
        assume "s' \<in> set ss'" and "a < length st''"
        then show "outcome a (validate_field_st rm a v' s' p' st'') = validate_field rm v' s' p' (st'' ! a)
                   \<and> touches_only a st'' (validate_field_st rm a v' s' p' st'')"
          by (intro Cons.prems(2)[of s']) (simp_all add: Cons)
      qed
    qed
    then show ?thesis by (simp add: Cons)
  qed
qed

lemma validate_field_st_refines:
  "a < length st \<Longrightarrow>
     outcome a (validate_field_st rm a v s p st) = validate_field rm v s p (st ! a)
     \<and> touches_only a st (validate_field_st rm a v s p st)"
proof (induction s arbitrary: v p st)
  case (PStr s)
  then show ?case by (simp add: validate_field_st_PStr validate_field_st_PStr_touches)
next
  case (PList ss)
  note len = PList.prems
  show ?case
  proof (cases "length ss = 1 \<and> isinstance_dict_list_str (hd ss)")
    case True
    then obtain s0 where ss: "ss = [s0]" and s0: "isinstance_dict_list_str s0"
      by (cases ss) auto
    have each: "outcome a (validate_each_st rm a xs s0 0 p st) = validate_each rm xs s0 0 p (st ! a)
                \<and> touches_only a st (validate_each_st rm a xs s0 0 p st)" for xs
    proof (rule validate_each_st_refines[OF _ len])
      fix v' p' and st' :: store
      assume "a < length st'"
      then show "outcome a (validate_field_st rm a v' s0 p' st') = validate_field rm v' s0 p' (st' ! a)
                 \<and> touches_only a st' (validate_field_st rm a v' s0 p' st')"
        by (intro PList.IH[of s0]) (simp_all add: ss)
    qed
    show ?thesis
    proof (cases v)
      case (PList xs)
      then show ?thesis using each[of xs]
        by (simp add: ss validate_field_PList_each[OF s0] validate_field_st_PList_each[OF s0])
    qed (simp_all add: ss len validate_field_PList_each[OF s0] validate_field_st_PList_each[OF s0])
  next
    case False
    have zip: "outcome a (validate_zip_st rm a xs ss 0 p st) = validate_zip rm xs ss 0 p (st ! a)
                \<and> touches_only a st (validate_zip_st rm a xs ss 0 p st)" for xs
    proof (rule validate_zip_st_refines[OF _ len])
      fix s' v' p' and st' :: store
      assume "s' \<in> set ss" and "a < length st'"
      then show "outcome a (validate_field_st rm a v' s' p' st') = validate_field rm v' s' p' (st' ! a)
                 \<and> touches_only a st' (validate_field_st rm a v' s' p' st')"
        by (intro PList.IH[of s']) simp_all
    qed
    show ?thesis
    proof (cases v)
      case (PList xs)
      then show ?thesis using zip[of xs]
        by (simp add: len validate_field_PList_zip[OF False] validate_field_st_PList_zip[OF False])
    qed (simp_all add: len validate_field_PList_zip[OF False] validate_field_st_PList_zip[OF False])
  qed
next
  case (PDict kvs)
  note len = PDict.prems
  have items: "outcome a (validate_items_st rm a r kvs p st) = validate_items rm r kvs p (st ! a)
               \<and> touches_only a st (validate_items_st rm a r kvs p st)" for r
  proof (rule validate_items_st_refines[OF _ len])
    fix k s' v' p' and st' :: store
    assume "(k, s') \<in> set kvs" and "a < length st'"
    then show "outcome a (validate_field_st rm a v' s' p' st') = validate_field rm v' s' p' (st' ! a)
                 \<and> touches_only a st' (validate_field_st rm a v' s' p' st')"
      by (intro PDict.IH[of "(k, s')" s']) simp_all
  qed
  show ?case
  proof (cases v)
    case (PDict r)
    then show ?thesis using items[of r] by (simp add: validate_field_PDict validate_field_st_PDict)
  qed (simp_all add: len validate_field_PDict validate_field_st_PDict)
qed (simp_all add: validate_field_scalar validate_field_st_scalar isinstance_list_dict_def)

lemma validate_json_schema_st_refines:
  "fst (validate_json_schema_st rm v s st) = validate_json_schema rm v s
   \<and> (\<exists>ds. snd (validate_json_schema_st rm v s st) = st @ [ds])"
proof -
  let ?a = "length st"
  let ?w = "validate_field_st rm ?a v s [] (st @ [[]])"
  obtain x st2 where w: "?w = (x, st2)" by (cases ?w)
  have "outcome ?a ?w = validate_field rm v s [] ((st @ [[]]) ! ?a) \<and> touches_only ?a (st @ [[]]) ?w"
    by (rule validate_field_st_refines) simp
  then have o: "validate_field rm v s [] [] = outcome ?a (x, st2)"
    and t: "st2 = (st @ [[]])[?a := st2 ! ?a]"
    by (simp_all add: w touches_only_def)
  define ds where "ds = st2 ! ?a"
  have st2: "st2 = st @ [ds]"
    using t by (simp add: list_update_append ds_def)
  have at: "(st @ [ds]) ! ?a = ds" by simp
  show ?thesis
  proof (cases x)
    case None
    then show ?thesis
      by (simp add: validate_json_schema_st_def validate_json_schema_def list_new_def w o st2 at)
  next
    case (Some exn)
    then show ?thesis
      by (simp add: validate_json_schema_st_def validate_json_schema_def list_new_def w o st2)
  qed
qed

lemma run_calls_st_results:
  "fst (run_calls_st rm calls st) = map (\<lambda>(v, s). validate_json_schema rm v s) calls"
proof (induction calls arbitrary: st)
  case Nil
  show ?case by simp
next
  case (Cons c calls)
  obtain v s where c: "c = (v, s)" by (cases c)
  obtain r st1 where r: "validate_json_schema_st rm v s st = (r, st1)"
    by (cases "validate_json_schema_st rm v s st")
  obtain rs st2 where rs: "run_calls_st rm calls st1 = (rs, st2)"
    by (cases "run_calls_st rm calls st1")
  have "r = validate_json_schema rm v s"
    using validate_json_schema_st_refines[of rm v s st] by (simp add: r)
  then show ?case using Cons.IH[of st1]
    by (simp add: c r rs)
qed

subsection \<open>The claims about the matcher\<close>

text \<open>
  C1.  An array-of-referenced-schema token is meant to validate every element of the
  observed array against the schema fragment it names.  The code does not: with the
  fragment \<open>userSchema\<close> in the schema document, the token \<open>##[]userSchema\<close>
  against the observed empty array is compared as the literal string
  \<open>[]userSchema\<close> and fails, and the token \<open>#[]userSchema\<close> against the conforming
  array \<open>[{"id": 1}]\<close> fails the emptiness check; in both runs the diagnostic is at
  the path of the array itself, not at an element path.
\<close>

theorem array_reference_token_not_resolved:
  "validate_json_schema re_match
     (PDict [(''users'', PList []), (''userSchema'', PDict [(''id'', PInt 1)])])
     (PDict [(''users'', PStr ''##[]userSchema''),
             (''userSchema'', PDict [(''id'', PStr ''#number'')])])
   = Inr (False, Joined [ValueMismatch ''.users'' (PStr ''[]userSchema'') (PList [])])
   \<and>
   validate_json_schema re_match
     (PDict [(''users'', PList [PDict [(''id'', PInt 1)]]), (''userSchema'', PDict [(''id'', PInt 1)])])
     (PDict [(''users'', PStr ''#[]userSchema''),
             (''userSchema'', PDict [(''id'', PStr ''#number'')])])
   = Inr (False, Joined [ExpectedEmptyArray ''.users'' ''list''])"
  by (simp add: eval_defs)

text \<open>
  C2.  The matcher is meant to turn every data mismatch into a diagnostic.  The code
  raises instead when a value is missing where the schema holds a literal number:
  the observed object \<open>{}\<close> against the schema \<open>{"a": 1}\<close> ends in
  \<open>AttributeError\<close>, for every regex engine.
\<close>

theorem missing_value_against_number_raises:
  "validate_json_schema re_match (PDict []) (PDict [(''a'', PInt 1)]) = Inl AttributeError"
  by (simp add: eval_defs)

text \<open>
  C3.  A token \<open>#[]name\<close> whose fragment is not in the schema document is meant to
  give a diagnostic of its own.  The code passes silently: the observed
  \<open>{"users": []}\<close> against \<open>{"users": "#[]missingSchema"}\<close> validates.
\<close>

theorem missing_fragment_passes_silently:
  "validate_json_schema re_match
     (PDict [(''users'', PList [])])
     (PDict [(''users'', PStr ''#[]missingSchema'')])
   = Inr (True, Validation_successful)"
  by (simp add: eval_defs)

text \<open>
  C4 (as stated).  Booleans are meant to be a kind apart from numbers: a boolean
  against \<open>#number\<close> should fail with a kind diagnostic, and \<open>True\<close> against the
  literal \<open>1\<close> should fail.  On the code both runs validate, because \<open>bool\<close> is a
  subclass of \<open>int\<close> for \<open>isinstance\<close> and \<open>True == 1\<close>.
\<close>

theorem boolean_accepted_as_number:
  "validate_json_schema re_match_plain (PDict [(''n'', PBool True)]) (PDict [(''n'', PStr ''#number'')])
     = Inr (True, Validation_successful)
   \<and> validate_json_schema re_match_plain (PDict [(''n'', PBool True)]) (PDict [(''n'', PInt 1)])
     = Inr (True, Validation_successful)"
  by (simp add: eval_defs)

text \<open>
  C4 (amended).  \<open>#number\<close> accepts every \<open>bool\<close>, \<open>int\<close> and \<open>float\<close> value, so
  every boolean, and gives the kind diagnostic for every other value; \<open>#boolean\<close>
  accepts the booleans only.  Against a numeric or boolean literal, an observed
  number or boolean validates exactly when the two have the same numeric value
  (\<open>True\<close> as 1, \<open>False\<close> as 0), with no tolerance; otherwise the value diagnostic is
  given.
\<close>

theorem number_token_accepts_booleans:
  "validate_json_schema rm (PBool b) (PStr NUMBER_FIELD) = Inr (True, Validation_successful)
   \<and> validate_json_schema rm v (PStr NUMBER_FIELD)
       = (if isinstance_int_float v then Inr (True, Validation_successful)
          else Inr (False, Joined [ExpectedKind [] ''number'' (type_name v)]))
   \<and> validate_json_schema rm v (PStr BOOLEAN_FIELD)
       = (if isinstance_bool v then Inr (True, Validation_successful)
          else Inr (False, Joined [ExpectedKind [] ''boolean'' (type_name v)]))
   \<and> (isinstance_int_float v \<and> isinstance_int_float L \<longrightarrow>
        validate_json_schema rm v L
          = (if num_val v = num_val L then Inr (True, Validation_successful)
             else Inr (False, Joined [ValueMismatch [] L v])))"
proof -
  have lit: "validate_field rm v L [] [] = (if num_val v = num_val L then Inr [] else Inr [ValueMismatch [] L v])"
    if "isinstance_int_float v" "isinstance_int_float L"
    using that by (cases v; cases L) (simp_all add: validate_field_scalar isinstance_list_dict_def py_ne_def)
  show ?thesis
    by (simp add: validate_json_schema_def number_token_shape boolean_token_shape lit)
qed

theorem number_token_accepts_booleans_witness:
  "isinstance_int_float (PBool True) \<and> isinstance_int_float (PInt 1)
   \<and> validate_json_schema re_match_plain (PBool True) (PInt 1) = Inr (True, Validation_successful)"
  using number_token_accepts_booleans [where rm = re_match_plain and v = "PBool True" and L = "PInt 1"]
  by simp

text \<open>
  C5.  Against a literal schema node the result is meant to be \<open>ok\<close> exactly when the
  observed value equals the literal, for every observed value.  For the observed
  \<open>None\<close> and a literal that is not a string no result is returned at all: the
  observed \<open>{"active": null}\<close> against the schema \<open>{"active": true}\<close> ends in
  \<open>AttributeError\<close>.
\<close>

theorem missing_value_against_boolean_literal_raises:
  "validate_json_schema re_match (PDict [(''active'', PNone)]) (PDict [(''active'', PBool True)])
     = Inl AttributeError"
  by (simp add: eval_defs)

text \<open>
  C6 (as stated).  Every single-element array schema is meant to be the homogeneous
  shorthand.  When the single element is a number the code compares position by
  position instead: the value \<open>1\<close> satisfies the item schema \<open>1\<close>, yet the array
  \<open>[1, 1]\<close> against \<open>[1]\<close> fails on its length.
\<close>

theorem single_literal_array_is_positional:
  "validate_json_schema re_match_plain (PDict [(''a'', PInt 1)]) (PDict [(''a'', PInt 1)])
     = Inr (True, Validation_successful)
   \<and> validate_json_schema re_match_plain (PDict [(''a'', PList [PInt 1, PInt 1])])
        (PDict [(''a'', PList [PInt 1])])
     = Inr (False, Joined [LengthMismatch ''.a'' 1 2])"
  by (simp add: eval_defs)

text \<open>
  C6 (amended).  For a single-element array schema whose element is a string, an
  object or an array: an observed value that is not an array gives the one
  diagnostic \<open>expected array\<close>; an observed array validates exactly when each of its
  elements validates against the item schema at the path of its index; and when no
  element raises, the diagnostics are those of the elements, in order.  The schema
  \<open>["#number"]\<close> against \<open>[1, 2, "x"]\<close> fails with exactly one diagnostic, at
  \<open>[2]\<close>.
\<close>

theorem homogeneous_array_shorthand:
  "(isinstance_dict_list_str item_schema \<longrightarrow>
      (\<not> isinstance_list v \<longrightarrow>
         validate_field rm v (PList [item_schema]) p [] = Inr [ExpectedKind p ''array'' (type_name v)])
    \<and> (validate_field rm (PList xs) (PList [item_schema]) p [] = Inr [] \<longleftrightarrow>
         (\<forall>j<length xs. validate_field rm (xs ! j) item_schema (index_path p j) [] = Inr []))
    \<and> ((\<forall>j<length xs. validate_field rm (xs ! j) item_schema (index_path p j) [] = Inr (ds j)) \<longrightarrow>
         validate_field rm (PList xs) (PList [item_schema]) p [] = Inr (concat (map ds [0..<length xs]))))
   \<and> validate_json_schema rm (PList [PInt 1, PInt 2, PStr ''x'']) (PList [PStr ''#number''])
       = Inr (False, Joined [ExpectedKind ''[2]'' ''number'' ''str''])"
proof -
  have run: "validate_json_schema rm (PList [PInt 1, PInt 2, PStr ''x'']) (PList [PStr ''#number''])
       = Inr (False, Joined [ExpectedKind ''[2]'' ''number'' ''str''])"
    by (simp add: eval_defs str_of_nat.simps digit_def)
  have gen: "(\<not> isinstance_list v \<longrightarrow>
         validate_field rm v (PList [item_schema]) p [] = Inr [ExpectedKind p ''array'' (type_name v)])
    \<and> (validate_field rm (PList xs) (PList [item_schema]) p [] = Inr [] \<longleftrightarrow>
         (\<forall>j<length xs. validate_field rm (xs ! j) item_schema (index_path p j) [] = Inr []))
    \<and> ((\<forall>j<length xs. validate_field rm (xs ! j) item_schema (index_path p j) [] = Inr (ds j)) \<longrightarrow>
         validate_field rm (PList xs) (PList [item_schema]) p [] = Inr (concat (map ds [0..<length xs])))"
    if s: "isinstance_dict_list_str item_schema"
  proof (intro conjI impI)
    assume "\<not> isinstance_list v"
    then show "validate_field rm v (PList [item_schema]) p [] = Inr [ExpectedKind p ''array'' (type_name v)]"
      by (cases v) (simp_all add: validate_field_PList_each[OF s])
  next
    show "validate_field rm (PList xs) (PList [item_schema]) p [] = Inr [] \<longleftrightarrow>
         (\<forall>j<length xs. validate_field rm (xs ! j) item_schema (index_path p j) [] = Inr [])"
      using validate_each_passes_iff[of rm xs item_schema 0 p]
      by (simp add: validate_field_PList_each[OF s])
  next
    assume "\<forall>j<length xs. validate_field rm (xs ! j) item_schema (index_path p j) [] = Inr (ds j)"
    then show "validate_field rm (PList xs) (PList [item_schema]) p [] = Inr (concat (map ds [0..<length xs]))"
      using validate_each_concat[of xs rm item_schema p 0 ds]
      by (simp add: validate_field_PList_each[OF s])
  qed
  show ?thesis using run gen by blast
qed

theorem homogeneous_array_shorthand_witness:
  "isinstance_dict_list_str (PStr ''#number'') \<and> \<not> isinstance_list (PInt 3)
   \<and> validate_field re_match_plain (PInt 3) (PList [PStr ''#number'']) ''.a'' []
       = Inr [ExpectedKind ''.a'' ''array'' ''int'']
   \<and> validate_field re_match_plain (PInt 1) (PStr ''#number'') (index_path ''.a'' 0) [] = Inr []
   \<and> validate_field re_match_plain (PFloat 2) (PStr ''#number'') (index_path ''.a'' 1) [] = Inr []
   \<and> validate_field re_match_plain (PList [PInt 1, PFloat 2]) (PList [PStr ''#number'']) ''.a'' [] = Inr []"
  using homogeneous_array_shorthand [where rm = re_match_plain and item_schema = "PStr ''#number''"
      and v = "PInt 3" and p = "''.a''" and xs = "[PInt 1, PFloat 2]" and ds = "\<lambda>_. []"]
  by (simp add: eval_defs index_path_def str_of_nat.simps digit_def)

text \<open>
  C7.  A schema node \<open>#regex pattern\<close> validates exactly when the observed value is
  a string for which \<open>re.match(pattern, value)\<close> returns a match, that is a match
  starting at the first character that need not reach the end.  With the pattern
  \<open>^abc\<close> the observed \<open>abcdef\<close> validates and \<open>xabc\<close> does not.
\<close>

theorem regex_token_prefix_match:
  "((\<exists>m. validate_json_schema rm v (PStr (REGEX_FIELD @ pattern)) = Inr (True, m))
      \<longleftrightarrow> (\<exists>s. v = PStr s \<and> rm pattern s = Inr True))
   \<and> validate_json_schema re_match_plain (PStr ''abcdef'') (PStr ''#regex ^abc'')
       = Inr (True, Validation_successful)
   \<and> validate_json_schema re_match_plain (PStr ''xabc'') (PStr ''#regex ^abc'')
       = Inr (False, Joined [RegexMismatch [] ''xabc'' ''^abc''])"
proof -
  have gen: "(\<exists>m. validate_json_schema rm v (PStr (REGEX_FIELD @ pattern)) = Inr (True, m))
      \<longleftrightarrow> (\<exists>s. v = PStr s \<and> rm pattern s = Inr True)"
    by (cases v) (auto simp add: validate_json_schema_def regex_token_shape split: sum.splits)
  have run: "validate_json_schema re_match_plain (PStr ''abcdef'') (PStr ''#regex ^abc'')
       = Inr (True, Validation_successful)
   \<and> validate_json_schema re_match_plain (PStr ''xabc'') (PStr ''#regex ^abc'')
       = Inr (False, Joined [RegexMismatch [] ''xabc'' ''^abc''])"
    by (simp add: eval_defs re_match_plain_def re_metachars_def)
  show ?thesis using gen run by blast
qed

text \<open>
  C8.  A call keeps nothing from one call to the next.  Run on any store, whatever
  lists earlier calls have left in it and whatever they hold, a call returns what
  the function returns from its two arguments alone, so the same pair as on any
  other store and as on the empty one; it leaves every existing object as it was
  and adds its own list behind them.  In a sequence of calls on one store each
  result is the result of that call on its own, the ordered diagnostics included.
  Within a call, whatever the accumulator holds when a walk starts, the walk returns
  it extended by the diagnostics it produces from the empty accumulator.  Three
  calls run on a store that holds a stale diagnostic: the first and the third, with
  the same arguments, return the same two diagnostics in the same order.
\<close>

theorem validate_json_schema_no_hidden_state:
  "fst (validate_json_schema_st rm v s st) = validate_json_schema rm v s
   \<and> fst (validate_json_schema_st rm v s st) = fst (validate_json_schema_st rm v s st')
   \<and> take (length st) (snd (validate_json_schema_st rm v s st)) = st
   \<and> fst (validate_json_schema_st rm v s (snd (run_calls_st rm earlier st)))
       = fst (validate_json_schema_st rm v s [])
   \<and> fst (run_calls_st rm calls st) = map (\<lambda>(v, s). validate_json_schema rm v s) calls
   \<and> validate_field rm v s p e = appended e (validate_field rm v s p [])
   \<and> fst (run_calls_st re_match_plain
            [(PDict [(''a'', PStr ''x'')], PDict [(''a'', PStr ''#number''), (''b'', PStr ''#present'')]),
             (PDict [(''a'', PInt 1)], PDict [(''a'', PStr ''#number'')]),
             (PDict [(''a'', PStr ''x'')], PDict [(''a'', PStr ''#number''), (''b'', PStr ''#present'')])]
            [[MissingPresent ''.stale'']])
       = [Inr (False, Joined [ExpectedKind ''.a'' ''number'' ''str'', MissingPresent ''.b'']),
          Inr (True, Validation_successful),
          Inr (False, Joined [ExpectedKind ''.a'' ''number'' ''str'', MissingPresent ''.b''])]"
proof -
  obtain ds where ds: "snd (validate_json_schema_st rm v s st) = st @ [ds]"
    using validate_json_schema_st_refines[of rm v s st] by blast
  have frame: "take (length st) (snd (validate_json_schema_st rm v s st)) = st"
    by (simp add: ds)
  have res: "fst (validate_json_schema_st rm v s st0) = validate_json_schema rm v s" for st0
    using validate_json_schema_st_refines[of rm v s st0] by blast
  have run: "fst (run_calls_st re_match_plain
            [(PDict [(''a'', PStr ''x'')], PDict [(''a'', PStr ''#number''), (''b'', PStr ''#present'')]),
             (PDict [(''a'', PInt 1)], PDict [(''a'', PStr ''#number'')]),
             (PDict [(''a'', PStr ''x'')], PDict [(''a'', PStr ''#number''), (''b'', PStr ''#present'')])]
            [[MissingPresent ''.stale'']])
       = [Inr (False, Joined [ExpectedKind ''.a'' ''number'' ''str'', MissingPresent ''.b'']),
          Inr (True, Validation_successful),
          Inr (False, Joined [ExpectedKind ''.a'' ''number'' ''str'', MissingPresent ''.b''])]"
    by (simp add: validate_json_schema_st_def list_new_def list_append_def validate_field_st.simps
          isinstance_list_dict_def isinstance_dict_list_str_def py_ne_def dict_get_def token_defs
          startswith_def)
  show ?thesis
    using frame run by (simp add: res run_calls_st_results validate_field_appended[of rm v s p e])
qed

section \<open>Properties of file lookup and JSON loading\<close>

lemma demo_env_sel:
  "is_file demo_env p = (p \<in> set [''res/sg/login.json'', ''res/my/login.json'', ''res/sg/user.json''])"
  "resolve demo_env p = ''/work/'' @ p"
  "rglob demo_env d pat =
     (if pat = [] then Inl Glob_error
      else Inr (filter (\<lambda>p. prefix (d @ ''/'') p \<and> suffix (''/'' @ pat) p)
                  [''res/my/login.json'', ''res/sg/login.json'', ''res/sg/user.json'']))"
  "path_exists demo_env p = (p \<in> set [''res'', ''res/sg'', ''res/my'', ''res/sg/login.json'',
                                   ''res/my/login.json'', ''res/sg/user.json''])"
  "open_read demo_env p = (if p = ''res/sg/user.json'' then Inr ''{}'' else Inl OS_error)"
  "json_loads demo_env t = (if t = ''{}'' then Inr (PDict []) else Inl JSON_decode_error)"
  by (simp_all add: demo_env_def)

text \<open>
  C9.  When the pattern is not itself a file and the search under the directory
  returns its candidates, \<open>get_abs_file_path\<close> raises \<open>No file found\<close> if none of
  them is a file, raises \<open>Multiple files found\<close> if more than one is, and returns
  the resolved path of the only one otherwise; it never returns an empty result.
\<close>

theorem get_abs_file_path_unique_match:
  assumes "\<not> is_file env pattern" and "rglob env dir pattern = Inr candidates"
  shows "get_abs_file_path env pattern dir =
     (case filter (is_file env) candidates of
        [] \<Rightarrow> Inl (No_file_found pattern dir)
      | [f] \<Rightarrow> Inr (resolve env f)
      | f # g # fs \<Rightarrow> Inl (Multiple_files_found pattern dir (f # g # fs)))"
  using assms by (simp add: get_abs_file_path_def Let_def split: list.splits)

theorem get_abs_file_path_unique_match_witness:
  "\<not> is_file demo_env ''user.json''
   \<and> rglob demo_env ''res'' ''user.json'' = Inr [''res/sg/user.json'']
   \<and> get_abs_file_path demo_env ''user.json'' ''res'' = Inr ''/work/res/sg/user.json''
   \<and> \<not> is_file demo_env ''login.json''
   \<and> rglob demo_env ''res'' ''login.json'' = Inr [''res/my/login.json'', ''res/sg/login.json'']
   \<and> get_abs_file_path demo_env ''login.json'' ''res''
       = Inl (Multiple_files_found ''login.json'' ''res'' [''res/my/login.json'', ''res/sg/login.json''])
   \<and> \<not> is_file demo_env ''nothing.json''
   \<and> rglob demo_env ''res'' ''nothing.json'' = Inr []
   \<and> get_abs_file_path demo_env ''nothing.json'' ''res'' = Inl (No_file_found ''nothing.json'' ''res'')"
proof -
  have f1: "\<not> is_file demo_env ''user.json''"
    and f2: "\<not> is_file demo_env ''login.json''"
    and f3: "\<not> is_file demo_env ''nothing.json''"
    by (simp_all add: demo_env_sel)
  have r1: "rglob demo_env ''res'' ''user.json'' = Inr [''res/sg/user.json'']"
    by (simp add: demo_env_sel suffix_to_prefix)
  have r2: "rglob demo_env ''res'' ''login.json'' = Inr [''res/my/login.json'', ''res/sg/login.json'']"
    by (simp add: demo_env_sel suffix_to_prefix)
  have r3: "rglob demo_env ''res'' ''nothing.json'' = Inr []"
    by (simp add: demo_env_sel suffix_to_prefix)
  have g1: "get_abs_file_path demo_env ''user.json'' ''res'' = Inr ''/work/res/sg/user.json''"
    using get_abs_file_path_unique_match [OF f1 r1] by (simp add: demo_env_sel)
  have g2: "get_abs_file_path demo_env ''login.json'' ''res''
       = Inl (Multiple_files_found ''login.json'' ''res'' [''res/my/login.json'', ''res/sg/login.json''])"
    using get_abs_file_path_unique_match [OF f2 r2] by (simp add: demo_env_sel)
  have g3: "get_abs_file_path demo_env ''nothing.json'' ''res'' = Inl (No_file_found ''nothing.json'' ''res'')"
    using get_abs_file_path_unique_match [OF f3 r3] by simp
  show ?thesis
    using f1 f2 f3 r1 r2 r3 g1 g2 g3 by blast
qed

text \<open>
  C10.  For a path that does not exist \<open>read_json_file\<close> returns the empty dict
  after the existence test alone.  The file is opened exactly when the path exists,
  only that path is ever opened, and the parser runs only when the path exists.
\<close>

theorem read_json_file_missing_path:
  "(\<not> path_exists env p \<longrightarrow> read_json_file env p = (Inr (PDict []), [Exists p]))
   \<and> (Open p \<in> set (snd (read_json_file env p)) \<longleftrightarrow> path_exists env p)
   \<and> ((\<exists>c. Json_load c \<in> set (snd (read_json_file env p))) \<longrightarrow> path_exists env p)
   \<and> (\<forall>q. Open q \<in> set (snd (read_json_file env p)) \<longrightarrow> q = p)"
  by (cases "path_exists env p"; cases "open_read env p") (simp_all add: read_json_file_def)

theorem read_json_file_missing_path_witness:
  "\<not> path_exists demo_env ''res/sg/none.json''
   \<and> read_json_file demo_env ''res/sg/none.json'' = (Inr (PDict []), [Exists ''res/sg/none.json''])"
proof -
  have e: "\<not> path_exists demo_env ''res/sg/none.json''"
    by (simp add: demo_env_sel)
  show ?thesis
    using read_json_file_missing_path [of demo_env "''res/sg/none.json''"] e by blast
qed

end
